theory Spec2Isabelle
  imports Complex_Main "HOL-Library.Sublist" "HOL-Library.Word" "HOL-Library.Log_Nat"
    "HOL-Library.AList"
begin

section \<open>JavaScript values and the browser\<close>

text \<open>
  A JavaScript \<^verbatim>\<open>number\<close> is a rational: every double is one, and \<open>fl\<close> below rounds
  the exact result of an operation to the nearest double. The arithmetic of
  \<^verbatim>\<open>resizeImage\<close> and of \<^verbatim>\<open>generateCollage\<close>, whose results become whole numbers of
  pixels (by \<^verbatim>\<open>Math.round\<close>, or as the size given to a canvas), is rounded by \<open>fl\<close>
  operation by operation, as the code's arithmetic is: there a difference in the last place
  can move the result by a pixel. The two computations kept exact, the crop rectangle and
  the damped quality, say so where they are defined. NaN, the infinities and the exponent
  range of doubles are outside the model, so every division below is by a value assumed
  nonzero. An optional number
  (\<^verbatim>\<open>number | undefined\<close>, or the \<^verbatim>\<open>number | ""\<close> of an empty form field) is a
  \<open>num option\<close>.
\<close>

type_synonym num = rat

text \<open>Truthiness of an optional number: \<^verbatim>\<open>undefined\<close> and \<^verbatim>\<open>0\<close> are falsy.\<close>

definition truthy :: "num option \<Rightarrow> bool" where
  "truthy v = (case v of None \<Rightarrow> False | Some x \<Rightarrow> x \<noteq> 0)"

text \<open>\<^verbatim>\<open>a || b\<close> with a numeric default.\<close>

definition orElse :: "num option \<Rightarrow> num \<Rightarrow> num" where
  "orElse v d = (case v of None \<Rightarrow> d | Some x \<Rightarrow> if x \<noteq> 0 then x else d)"

text \<open>\<^verbatim>\<open>Math.round\<close>: the nearest integer, halves rounded up, that is \<open>\<lfloor>x + 1/2\<rfloor>\<close>.\<close>

definition Math_round :: "num \<Rightarrow> num" where
  "Math_round x = of_int (round x)"

text \<open>
  Rounding to the nearest double, ties to the even significand. \<open>ilog2 a\<close> is the exponent
  \<open>e\<close> with \<open>2 ^ e \<le> a < 2 ^ (e + 1)\<close> of a positive \<open>a\<close>, read off the bit length of
  \<open>\<lfloor>a\<rfloor>\<close>, or of \<open>\<lceil>1 / a\<rceil> - 1\<close> below 1; a double has 53 significant bits, so its last
  place is worth \<open>2 ^ (e - 52)\<close>.
\<close>

definition ilog2 :: "rat \<Rightarrow> int" where
  "ilog2 a = (if 1 \<le> a then bitlen \<lfloor>a\<rfloor> - 1 else - bitlen (\<lceil>1 / a\<rceil> - 1))"

definition roundEven :: "rat \<Rightarrow> int" where
  "roundEven m =
     (let f = \<lfloor>m\<rfloor>; d = m - of_int f
      in if d < 1 / 2 then f else if 1 / 2 < d then f + 1 else if even f then f else f + 1)"

definition fl :: "num \<Rightarrow> num" where
  "fl x =
     (if x = 0 then 0
      else (let ulp = 2 powi (ilog2 \<bar>x\<bar> - 52) in of_int (roundEven (x / ulp)) * ulp))"

text \<open>
  The size a canvas takes when a number is assigned to its \<^verbatim>\<open>width\<close> or
  \<^verbatim>\<open>height\<close>: these are \<^verbatim>\<open>unsigned long\<close> attributes, and the assignment drops the
  fraction. (Sizes are taken to be below \<open>2 ^ 31\<close>, beyond which a canvas falls back to its
  default size; an image's own dimensions are such whole numbers.)
\<close>

definition unsignedLong :: "num \<Rightarrow> num" where
  "unsignedLong x = of_int (if 0 \<le> x then \<lfloor>x\<rfloor> else \<lceil>x\<rceil>)"

text \<open>\<^verbatim>\<open>String.prototype.toLowerCase\<close> on the ASCII letters.\<close>

definition lowerChar :: "char \<Rightarrow> char" where
  "lowerChar c =
     (let n = (of_char c :: nat) in if 65 \<le> n \<and> n \<le> 90 then char_of (n + 32) else c)"

definition toLowerCase :: "string \<Rightarrow> string" where
  "toLowerCase s = map lowerChar s"

text \<open>
  An uploaded file (its name and its declared MIME type), a decoded image (its intrinsic
  size and the RGBA bytes that \<^verbatim>\<open>getImageData\<close> reads back once the image is drawn on
  a canvas of its own size), and a blob produced by \<^verbatim>\<open>canvas.toBlob\<close>, described by the
  size of the canvas and the type and quality arguments of the call.
\<close>

record File =
  file_name :: string
  file_type :: string

record HTMLImageElement =
  img_width :: nat
  img_height :: nat
  img_data :: "8 word list"

record Blob =
  blob_width :: num
  blob_height :: num
  blob_type :: string
  blob_quality :: num

datatype url = ObjectURL Blob

text \<open>
  What the browser decides: whether a file decodes (\<^verbatim>\<open>img.onload\<close> against
  \<^verbatim>\<open>img.onerror\<close>), whether a canvas hands out a 2D context, whether \<^verbatim>\<open>toBlob\<close>
  yields a blob for a canvas of a given size and type, and what \<^verbatim>\<open>fetch\<close> of an object
  URL returns (\<open>None\<close> when it throws).
\<close>

record browser =
  decode :: "File \<Rightarrow> HTMLImageElement option"
  getContext :: bool
  getTempContext :: bool
  toBlob :: "num \<Rightarrow> num \<Rightarrow> string \<Rightarrow> bool"
  fetch :: "url \<Rightarrow> Blob option"

datatype failure = LoadError | NoContext | BlobError

section \<open>Resize page: the proportional resizer\<close>

text \<open>
  Lines 119 to 135 of \<^verbatim>\<open>resizeImage\<close>: the size of the output canvas from the size of
  the decoded image, the optional requested width and height and the aspect flag.
\<close>

definition finalSize :: "HTMLImageElement \<Rightarrow> num option \<Rightarrow> num option \<Rightarrow> bool \<Rightarrow> num \<times> num" where
  "finalSize img width height maintainRatio =
     (let finalWidth = orElse width (of_nat (img_width img));
          finalHeight = orElse height (of_nat (img_height img))
      in if maintainRatio \<and> (truthy width \<or> truthy height) then
           (let aspectRatio = fl (of_nat (img_width img) / of_nat (img_height img)) in
            if truthy width \<and> \<not> truthy height then
              (finalWidth, Math_round (fl (the width / aspectRatio)))
            else if truthy height \<and> \<not> truthy width then
              (Math_round (fl (the height * aspectRatio)), finalHeight)
            else if truthy width \<and> truthy height then
              (let widthRatio = fl (the width / of_nat (img_width img));
                   heightRatio = fl (the height / of_nat (img_height img));
                   ratio = min widthRatio heightRatio
               in (Math_round (fl (of_nat (img_width img) * ratio)),
                   Math_round (fl (of_nat (img_height img) * ratio))))
            else (finalWidth, finalHeight))
         else (finalWidth, finalHeight))"

text \<open>
  \<^verbatim>\<open>resizeImage\<close>: the promise rejects when the file does not decode, when the canvas has
  no 2D context and when \<^verbatim>\<open>toBlob\<close> yields no blob; otherwise it resolves with the blob
  of the canvas that was given the final size, encoded with the file's own type at the
  page's quality.
\<close>

definition resizeImage ::
  "browser \<Rightarrow> num \<Rightarrow> File \<Rightarrow> num option \<Rightarrow> num option \<Rightarrow> bool \<Rightarrow> failure + Blob" where
  "resizeImage env quality f width height maintainRatio =
     (case decode env f of
        None \<Rightarrow> Inl LoadError
      | Some img \<Rightarrow>
          (let (finalWidth, finalHeight) = finalSize img width height maintainRatio;
               canvasW = unsignedLong finalWidth;
               canvasH = unsignedLong finalHeight
           in if \<not> getContext env then Inl NoContext
              else if toBlob env canvasW canvasH (file_type f) then
                Inr \<lparr>blob_width = canvasW, blob_height = canvasH,
                     blob_type = file_type f, blob_quality = quality\<rparr>
              else Inl BlobError))"

section \<open>Resize page: batch items and their processing\<close>

text \<open>
  The status strings of a batch item. The resize page uses \<open>resizing\<close> and the compress
  page \<open>compressing\<close> for an item being processed; \<open>statusRank\<close> is the position of a
  status on the path from pending over processing to completed or error.
\<close>

datatype status = pending | resizing | compressing | completed | error

fun statusRank :: "status \<Rightarrow> nat" where
  "statusRank pending = 0"
| "statusRank resizing = 1"
| "statusRank compressing = 1"
| "statusRank completed = 2"
| "statusRank error = 2"

text \<open>
  The \<^verbatim>\<open>ImageFile\<close> interface of the resize page (\<open>imgFile\<close> is its \<^verbatim>\<open>file\<close> field, \<open>ident\<close> its \<^verbatim>\<open>id\<close> field,
  \<open>errorText\<close> its
  \<^verbatim>\<open>error\<close> field) and the form state of the page that a run reads.
\<close>

record ImageFile =
  imgFile :: File
  ident :: string
  status :: status
  resizedUrl :: "url option"
  errorText :: "string option"
  originalWidth :: "num option"
  originalHeight :: "num option"
  targetWidth :: "num option"
  targetHeight :: "num option"

record form =
  targetWidthInput :: "num option"
  targetHeightInput :: "num option"
  maintainAspectRatio :: bool
  quality :: num

text \<open>
  \<^verbatim>\<open>resizeSingleImage\<close>, lines 181 to 193: the width and height handed to
  \<^verbatim>\<open>resizeImage\<close>. A form field that is empty or not positive is replaced by the
  item's original dimension.
\<close>

definition resizeArgs :: "form \<Rightarrow> ImageFile \<Rightarrow> num option \<times> num option" where
  "resizeArgs s imageFile =
     (let width = (case targetWidthInput s of
                     Some w \<Rightarrow> if w > 0 then Some w else originalWidth imageFile
                   | None \<Rightarrow> originalWidth imageFile);
          height = (case targetHeightInput s of
                      Some h \<Rightarrow> if h > 0 then Some h else originalHeight imageFile
                    | None \<Rightarrow> originalHeight imageFile)
      in if \<not> truthy width \<or> \<not> truthy height then
           (Some (orElse (originalWidth imageFile) 1), Some (orElse (originalHeight imageFile) 1))
         else (width, height))"

text \<open>
  \<^verbatim>\<open>resizeSingleImage\<close> has one suspension point, the \<^verbatim>\<open>await\<close> of
  \<^verbatim>\<open>resizeImage\<close>. \<open>beginResize\<close> is the state update before it (lines 174 to 178),
  \<open>settleResize\<close> the update after it (lines 195 to 226, the \<^verbatim>\<open>catch\<close> branch
  included); both address the item by its id and do not read its current status.
\<close>

definition beginResize :: "ImageFile \<Rightarrow> ImageFile list \<Rightarrow> ImageFile list" where
  "beginResize imageFile prev =
     map (\<lambda>img. if ident img = ident imageFile then img\<lparr>status := resizing\<rparr> else img) prev"

definition settleResize :: "browser \<Rightarrow> form \<Rightarrow> ImageFile \<Rightarrow> ImageFile list \<Rightarrow> ImageFile list" where
  "settleResize env s imageFile prev =
     (let (width, height) = resizeArgs s imageFile in
      case resizeImage env (quality s) (imgFile imageFile) width height (maintainAspectRatio s) of
        Inr blob \<Rightarrow>
          map (\<lambda>img. if ident img = ident imageFile
                      then img\<lparr>status := completed, resizedUrl := Some (ObjectURL blob),
                               targetWidth := width, targetHeight := height\<rparr>
                      else img) prev
      | Inl err \<Rightarrow>
          map (\<lambda>img. if ident img = ident imageFile
                      then img\<lparr>status := error, errorText := Some ''Error al redimensionar''\<rparr>
                      else img) prev)"

definition resizeSingleImage :: "browser \<Rightarrow> form \<Rightarrow> ImageFile \<Rightarrow> ImageFile list \<Rightarrow> ImageFile list" where
  "resizeSingleImage env s imageFile prev = settleResize env s imageFile (beginResize imageFile prev)"

text \<open>
  \<^verbatim>\<open>handleResizeAll\<close> run without interruption: the items that are pending when the
  button is pressed are processed one after the other, in list order.
\<close>

definition handleResizeAll :: "browser \<Rightarrow> form \<Rightarrow> ImageFile list \<Rightarrow> ImageFile list" where
  "handleResizeAll env s imageFiles =
     (let pendingImages = filter (\<lambda>img. status img = pending) imageFiles in
      foldl (\<lambda>prev imageFile. resizeSingleImage env s imageFile prev) imageFiles pendingImages)"



record entryName =
  originalName :: string
  nameWidth :: "num option"
  nameHeight :: "num option"
  ext :: string






definition settleItem :: "browser \<Rightarrow> form \<Rightarrow> ImageFile \<Rightarrow> ImageFile \<Rightarrow> ImageFile" where
  "settleItem env s imageFile img =
     (case resizeArgs s imageFile of
        (width, height) \<Rightarrow>
          (case resizeImage env (quality s) (imgFile imageFile) width height (maintainAspectRatio s) of
             Inr blob \<Rightarrow> img\<lparr>status := completed, resizedUrl := Some (ObjectURL blob),
                              targetWidth := width, targetHeight := height\<rparr>
           | Inl err \<Rightarrow> img\<lparr>status := error, errorText := Some ''Error al redimensionar''\<rparr>))"

text \<open>
  The page as an event-driven system. A run is a call of \<^verbatim>\<open>resizeSingleImage\<close> suspended
  at its \<^verbatim>\<open>await\<close>, together with the rest of the snapshot that
  \<^verbatim>\<open>handleResizeAll\<close> took when its button was pressed (empty for the button of a single
  item). Between two suspension points the handlers run without interruption; once the
  awaited promise settles, the continuation updates the item and, in a batch, starts the
  next item of the snapshot before any other event is served. The button of a single item
  is rendered only while that item is pending.
\<close>

record run =
  current :: ImageFile
  remaining :: "ImageFile list"

record page =
  imageFiles :: "ImageFile list"
  runs :: "run list"

datatype event = ClickResizeAll | ClickResize nat | Settle nat | Remove string | Clear

fun step :: "browser \<Rightarrow> form \<Rightarrow> page \<Rightarrow> event \<Rightarrow> page" where
  "step env s p ClickResizeAll =
     (case filter (\<lambda>img. status img = pending) (imageFiles p) of
        [] \<Rightarrow> p
      | imageFile # rest \<Rightarrow>
          p\<lparr>imageFiles := beginResize imageFile (imageFiles p),
            runs := runs p @ [\<lparr>current = imageFile, remaining = rest\<rparr>]\<rparr>)"
| "step env s p (ClickResize n) =
     (if n < length (imageFiles p) \<and> status (imageFiles p ! n) = pending then
        p\<lparr>imageFiles := beginResize (imageFiles p ! n) (imageFiles p),
          runs := runs p @ [\<lparr>current = imageFiles p ! n, remaining = []\<rparr>]\<rparr>
      else p)"
| "step env s p (Settle k) =
     (if k < length (runs p) then
        (let settled = settleResize env s (current (runs p ! k)) (imageFiles p) in
         case remaining (runs p ! k) of
           [] \<Rightarrow> p\<lparr>imageFiles := settled, runs := take k (runs p) @ drop (Suc k) (runs p)\<rparr>
         | imageFile # rest \<Rightarrow>
             p\<lparr>imageFiles := beginResize imageFile settled,
               runs := (runs p)[k := \<lparr>current = imageFile, remaining = rest\<rparr>]\<rparr>)
      else p)"
| "step env s p (Remove i) = p\<lparr>imageFiles := filter (\<lambda>img. ident img \<noteq> i) (imageFiles p)\<rparr>"
| "step env s p Clear = p\<lparr>imageFiles := []\<rparr>"

definition execute :: "browser \<Rightarrow> form \<Rightarrow> page \<Rightarrow> event list \<Rightarrow> page" where
  "execute env s p evs = foldl (step env s) p evs"

text \<open>Example data: a browser in which everything succeeds, and a freshly selected item.\<close>

definition browserOf :: "(File \<Rightarrow> HTMLImageElement option) \<Rightarrow> browser" where
  "browserOf d = \<lparr>decode = d, getContext = True, getTempContext = True,
     toBlob = (\<lambda>w h t. True), fetch = (\<lambda>u. case u of ObjectURL b \<Rightarrow> Some b)\<rparr>"

definition pendingItem :: "string \<Rightarrow> string \<Rightarrow> nat \<Rightarrow> nat \<Rightarrow> ImageFile" where
  "pendingItem i n w h =
     \<lparr>imgFile = \<lparr>file_name = n, file_type = ''image/png''\<rparr>, ident = i, status = pending,
      resizedUrl = None, errorText = None, originalWidth = Some (of_nat w),
      originalHeight = Some (of_nat h), targetWidth = Some (of_nat w),
      targetHeight = Some (of_nat h)\<rparr>"




definition form5 :: form where
  "form5 = \<lparr>targetWidthInput = Some 50, targetHeightInput = None, maintainAspectRatio = True,
     quality = 9/10\<rparr>"

section \<open>Collage page\<close>

text \<open>
  A canvas returned by \<^verbatim>\<open>cropAndResizeImage\<close>: its size and the one
  \<^verbatim>\<open>drawImage\<close> call made on it (the image, the source rectangle and the destination
  rectangle, under the names the canvas interface gives them), absent when the canvas has
  no 2D context and is returned untouched. \<open>tWidth\<close> and \<open>tHeight\<close> are the parameters
  \<^verbatim>\<open>targetWidth\<close> and \<^verbatim>\<open>targetHeight\<close>. The rectangles are coordinates handed to
  \<^verbatim>\<open>drawImage\<close> as they are, never rounded to pixels by the code; they are computed
  exactly here, and each double of the code is the rounding of the exact value.
\<close>

record drawImage =
  drawnImage :: HTMLImageElement
  sx :: num
  sy :: num
  sWidth :: num
  sHeight :: num
  dx :: num
  dy :: num
  dWidth :: num
  dHeight :: num

record croppedCanvas =
  canvasWidth :: num
  canvasHeight :: num
  drawn :: "drawImage option"

definition cropAndResizeImage :: "bool \<Rightarrow> HTMLImageElement \<Rightarrow> num \<Rightarrow> num \<Rightarrow> croppedCanvas" where
  "cropAndResizeImage ctx img tWidth tHeight =
     (if \<not> ctx then
        \<lparr>canvasWidth = unsignedLong tWidth, canvasHeight = unsignedLong tHeight,
         drawn = None\<rparr>
      else
        (let imgAspect = of_nat (img_width img) / of_nat (img_height img);
             targetAspect = tWidth / tHeight;
             (sourceX, sourceY, sourceWidth, sourceHeight) =
               (if imgAspect > targetAspect then
                  (let sourceWidth = of_nat (img_height img) * targetAspect in
                   ((of_nat (img_width img) - sourceWidth) / 2, 0,
                    sourceWidth, of_nat (img_height img)))
                else
                  (let sourceHeight = of_nat (img_width img) / targetAspect in
                   (0, (of_nat (img_height img) - sourceHeight) / 2,
                    of_nat (img_width img), sourceHeight)))
         in \<lparr>canvasWidth = unsignedLong tWidth, canvasHeight = unsignedLong tHeight,
              drawn = Some \<lparr>drawnImage = img, sx = sourceX, sy = sourceY,
                sWidth = sourceWidth, sHeight = sourceHeight,
                dx = 0, dy = 0, dWidth = tWidth, dHeight = tHeight\<rparr>\<rparr>))"

text \<open>
  The \<^verbatim>\<open>ImageFile\<close> interface of the collage page (its \<^verbatim>\<open>image\<close> field is absent when
  the file did not decode), a cropped canvas drawn at a position of the collage canvas, and
  a generated collage: its sequence number and, in place of the object URL, the canvas the
  PNG blob was encoded from (its size and the placements made on the white background,
  in drawing order).
\<close>

record CollageImageFile =
  collageFile :: File
  collageId :: string
  image :: "HTMLImageElement option"

record placement =
  placedAtX :: num
  placedAtY :: num
  placed :: croppedCanvas

record collage =
  collageIndex :: nat
  collageWidth :: num
  collageHeight :: num
  placements :: "placement list"

record collagePage =
  collageImageFiles :: "CollageImageFile list"
  columns :: nat
  rows :: nat
  collages :: "collage list"

definition cellWidth :: num where
  "cellWidth = 800"

definition cellHeight :: num where
  "cellHeight = fl (cellWidth / fl (9 / 16))"

text \<open>The body of the two inner loops for one cell: nothing is drawn past the last image.\<close>

definition drawCell ::
  "browser \<Rightarrow> CollageImageFile list \<Rightarrow> nat \<Rightarrow> nat \<Rightarrow> nat \<Rightarrow> nat \<Rightarrow> placement list" where
  "drawCell env validImages cols startIndex row col =
     (let cellIndex = row * cols + col;
          globalIndex = startIndex + cellIndex;
          x = fl (of_nat col * cellWidth);
          y = fl (of_nat row * cellHeight)
      in if globalIndex < length validImages then
           (case image (validImages ! globalIndex) of
              None \<Rightarrow> []
            | Some img \<Rightarrow>
                [\<lparr>placedAtX = x, placedAtY = y,
                  placed = cropAndResizeImage (getContext env) img cellWidth cellHeight\<rparr>])
         else [])"

text \<open>
  One iteration of the outer loop: no collage when the canvas has no context or
  \<^verbatim>\<open>toBlob\<close> yields no blob.
\<close>

definition drawCollage ::
  "browser \<Rightarrow> CollageImageFile list \<Rightarrow> nat \<Rightarrow> nat \<Rightarrow> nat \<Rightarrow> collage list" where
  "drawCollage env validImages cols rws collageIdx =
     (if \<not> getContext env then []
      else
        (let width = unsignedLong (fl (cellWidth * of_nat cols));
             height = unsignedLong (fl (cellHeight * of_nat rws));
             startIndex = collageIdx * (cols * rws);
             drawnCells =
               concat (map (\<lambda>row. concat (map (\<lambda>col. drawCell env validImages cols startIndex row col)
                                              [0..<cols]))
                           [0..<rws])
         in if toBlob env width height ''image/png'' then
              [\<lparr>collageIndex = collageIdx + 1, collageWidth = width, collageHeight = height,
                placements = drawnCells\<rparr>]
            else []))"

text \<open>
  \<^verbatim>\<open>generateCollage\<close>. It returns at once when there is no image or no decoded image.
  With an empty grid the loop bound \<^verbatim>\<open>Math.ceil(n / 0)\<close> is \<^verbatim>\<open>Infinity\<close> and the loop
  never ends: the result is \<open>None\<close>.
\<close>

definition generateCollage :: "browser \<Rightarrow> collagePage \<Rightarrow> collagePage option" where
  "generateCollage env st =
     (if collageImageFiles st = [] then Some st
      else
        (let validImages = filter (\<lambda>img. image img \<noteq> None) (collageImageFiles st) in
         if validImages = [] then Some st
         else
           (let imagesPerCollage = columns st * rows st in
            if imagesPerCollage = 0 then None
            else
              (let totalCollages =
                     nat \<lceil>(of_nat (length validImages) :: rat) / of_nat imagesPerCollage\<rceil>;
                   generatedCollages =
                     concat (map (drawCollage env validImages (columns st) (rows st))
                                 [0..<totalCollages])
               in Some (st\<lparr>collages := generatedCollages\<rparr>)))))"

text \<open>Ten decoded images of different widths, for a grid of three by three cells.\<close>

definition tenImages :: "CollageImageFile list" where
  "tenImages =
     map (\<lambda>i. \<lparr>collageFile = \<lparr>file_name = ''photo.jpg'', file_type = ''image/jpeg''\<rparr>,
                collageId = replicate i (CHR ''i''),
                image = Some \<lparr>img_width = 1000 + i, img_height = 1000, img_data = []\<rparr>\<rparr>)
         [0..<10]"

section \<open>Compress page: the quality re-encoder\<close>

text \<open>
  \<^verbatim>\<open>ImageData.data\<close> holds four bytes per pixel, in the order red, green, blue, alpha.
\<close>

record pixel =
  red :: "8 word"
  green :: "8 word"
  blue :: "8 word"
  alpha :: "8 word"

definition imageDataOf :: "pixel list \<Rightarrow> 8 word list" where
  "imageDataOf ps = concat (map (\<lambda>p. [red p, green p, blue p, alpha p]) ps)"

text \<open>
  \<^verbatim>\<open>imageData.data.some((_, i) => i % 4 === 3 && imageData.data[i] < 255)\<close>.
\<close>

definition hasTransparency :: "8 word list \<Rightarrow> bool" where
  "hasTransparency imageData =
     list_ex (\<lambda>i. i mod 4 = 3 \<and> imageData ! i < 255) [0..<length imageData]"

text \<open>
  Lines 113 to 148 of \<^verbatim>\<open>compressImage\<close>: the type and quality arguments of the final
  \<^verbatim>\<open>toBlob\<close> call. \<^verbatim>\<open>includes\<close> is the test for a contiguous substring. The damped
  quality is the exact product, of which the code's double is the rounding.
\<close>

definition outputEncoding :: "browser \<Rightarrow> string \<Rightarrow> num \<Rightarrow> HTMLImageElement \<Rightarrow> string \<times> num" where
  "outputEncoding env fileType qualityPercent img =
     (let originalType = toLowerCase fileType in
      if originalType = ''image/png'' then
        (if getTempContext env then
           (if hasTransparency (img_data img) then
              (''image/png'', max (1 / 10) (qualityPercent * (9 / 10)))
            else (''image/jpeg'', qualityPercent))
         else (''image/jpeg'', qualityPercent))
      else if originalType = ''image/webp'' then (''image/webp'', qualityPercent)
      else if sublist ''jpeg'' originalType \<or> sublist ''jpg'' originalType then
        (''image/jpeg'', qualityPercent)
      else (''image/jpeg'', qualityPercent))"

text \<open>
  \<^verbatim>\<open>compressImage\<close>: the canvas has the size of the image; the promise rejects when the
  file does not decode, when the canvas has no context and when \<^verbatim>\<open>toBlob\<close> yields no
  blob.
\<close>

definition compressImage :: "browser \<Rightarrow> File \<Rightarrow> num \<Rightarrow> failure + Blob" where
  "compressImage env f qualityPercent =
     (case decode env f of
        None \<Rightarrow> Inl LoadError
      | Some img \<Rightarrow>
          if \<not> getContext env then Inl NoContext
          else
            (let (outputMimeType, outputQuality) =
                   outputEncoding env (file_type f) qualityPercent img
             in if toBlob env (of_nat (img_width img)) (of_nat (img_height img)) outputMimeType
                then Inr \<lparr>blob_width = of_nat (img_width img),
                          blob_height = of_nat (img_height img),
                          blob_type = outputMimeType, blob_quality = outputQuality\<rparr>
                else Inl BlobError))"

text \<open>A PNG file of two pixels, the second with alpha 100, and the browser that decodes it.\<close>

definition translucentPng :: HTMLImageElement where
  "translucentPng = \<lparr>img_width = 2, img_height = 1,
     img_data = imageDataOf [\<lparr>red = 10, green = 20, blue = 30, alpha = 255\<rparr>,
                             \<lparr>red = 10, green = 20, blue = 30, alpha = 100\<rparr>]\<rparr>"

definition pngFile :: File where
  "pngFile = \<lparr>file_name = ''logo.png'', file_type = ''image/png''\<rparr>"

text \<open>
  The \<^verbatim>\<open>ImageFile\<close> interface of the compress page, and \<^verbatim>\<open>compressSingleImage\<close> split
  at its \<^verbatim>\<open>await\<close> like \<^verbatim>\<open>resizeSingleImage\<close>. The size of a blob in bytes is a
  parameter.
\<close>

record CompressFile =
  compressFile :: File
  compressId :: string
  compressStatus :: status
  compressedUrl :: "url option"
  compressError :: "string option"
  originalSize :: "nat option"
  compressedSize :: "nat option"

definition beginCompress :: "CompressFile \<Rightarrow> CompressFile list \<Rightarrow> CompressFile list" where
  "beginCompress imageFile prev =
     map (\<lambda>img. if compressId img = compressId imageFile
                 then img\<lparr>compressStatus := compressing\<rparr> else img) prev"

definition settleCompress ::
  "browser \<Rightarrow> (Blob \<Rightarrow> nat) \<Rightarrow> num \<Rightarrow> CompressFile \<Rightarrow> CompressFile list \<Rightarrow> CompressFile list" where
  "settleCompress env byteSize q imageFile prev =
     (case compressImage env (compressFile imageFile) q of
        Inr blob \<Rightarrow>
          map (\<lambda>img. if compressId img = compressId imageFile
                      then img\<lparr>compressStatus := completed, compressedUrl := Some (ObjectURL blob),
                               compressedSize := Some (byteSize blob)\<rparr>
                      else img) prev
      | Inl err \<Rightarrow>
          map (\<lambda>img. if compressId img = compressId imageFile
                      then img\<lparr>compressStatus := error,
                               compressError := Some ''Error al comprimir''\<rparr>
                      else img) prev)"

definition compressSingleImage ::
  "browser \<Rightarrow> (Blob \<Rightarrow> nat) \<Rightarrow> num \<Rightarrow> CompressFile \<Rightarrow> CompressFile list \<Rightarrow> CompressFile list" where
  "compressSingleImage env byteSize q imageFile prev =
     settleCompress env byteSize q imageFile (beginCompress imageFile prev)"

text \<open>
  The compress page as an event-driven system. \<^verbatim>\<open>handleCompressAll\<close> sets
  \<^verbatim>\<open>isCompressing\<close> around its loop, and the batch button is disabled while it is set;
  the button of a single item is rendered while that item is pending, whatever the flag.
\<close>

record compressRun =
  compressing_now :: CompressFile
  compress_next :: "CompressFile list"
  batch :: bool

record compressPage =
  compressFiles :: "CompressFile list"
  compressRuns :: "compressRun list"
  isCompressing :: bool

datatype compressEvent = ClickCompressAll | ClickCompress nat | SettleCompress nat

fun compressStep ::
  "browser \<Rightarrow> (Blob \<Rightarrow> nat) \<Rightarrow> num \<Rightarrow> compressPage \<Rightarrow> compressEvent \<Rightarrow> compressPage" where
  "compressStep env byteSize q p ClickCompressAll =
     (if isCompressing p then p
      else
        (case filter (\<lambda>img. compressStatus img = pending) (compressFiles p) of
           [] \<Rightarrow> p
         | imageFile # rest \<Rightarrow>
             p\<lparr>isCompressing := True,
               compressFiles := beginCompress imageFile (compressFiles p),
               compressRuns := compressRuns p @
                 [\<lparr>compressing_now = imageFile, compress_next = rest, batch = True\<rparr>]\<rparr>))"
| "compressStep env byteSize q p (ClickCompress n) =
     (if n < length (compressFiles p) \<and> compressStatus (compressFiles p ! n) = pending then
        p\<lparr>compressFiles := beginCompress (compressFiles p ! n) (compressFiles p),
          compressRuns := compressRuns p @
            [\<lparr>compressing_now = compressFiles p ! n, compress_next = [], batch = False\<rparr>]\<rparr>
      else p)"
| "compressStep env byteSize q p (SettleCompress k) =
     (if k < length (compressRuns p) then
        (let r = compressRuns p ! k;
             settled = settleCompress env byteSize q (compressing_now r) (compressFiles p)
         in case compress_next r of
              [] \<Rightarrow>
                p\<lparr>compressFiles := settled,
                  compressRuns := take k (compressRuns p) @ drop (Suc k) (compressRuns p),
                  isCompressing := (if batch r then False else isCompressing p)\<rparr>
            | imageFile # rest \<Rightarrow>
                p\<lparr>compressFiles := beginCompress imageFile settled,
                  compressRuns := (compressRuns p)
                    [k := \<lparr>compressing_now = imageFile, compress_next = rest, batch = batch r\<rparr>]\<rparr>)
      else p)"

definition compressExecute ::
  "browser \<Rightarrow> (Blob \<Rightarrow> nat) \<Rightarrow> num \<Rightarrow> compressPage \<Rightarrow> compressEvent list \<Rightarrow> compressPage" where
  "compressExecute env byteSize q p evs = foldl (compressStep env byteSize q) p evs"

definition pendingCompress :: "string \<Rightarrow> string \<Rightarrow> CompressFile" where
  "pendingCompress i n =
     \<lparr>compressFile = \<lparr>file_name = n, file_type = ''image/png''\<rparr>, compressId = i,
      compressStatus = pending, compressedUrl = None, compressError = None,
      originalSize = Some 2048, compressedSize = None\<rparr>"

definition pngBrowser :: browser where
  "pngBrowser = browserOf (\<lambda>f. Some translucentPng)"

section \<open>The conversion endpoint\<close>
















section \<open>Properties of the double rounding\<close>


lemma ilog2_upper:
  assumes "0 < a"
  shows "a < 2 powi (ilog2 a + 1)"
proof (cases "1 \<le> a")
  case True
  then have n: "0 < \<lfloor>a\<rfloor>" by simp
  from bitlen_bounds [OF n] have "\<lfloor>a\<rfloor> < 2 ^ nat (bitlen \<lfloor>a\<rfloor>)" ..
  then have "\<lfloor>a\<rfloor> + 1 \<le> 2 ^ nat (bitlen \<lfloor>a\<rfloor>)" by simp
  then have "rat_of_int (\<lfloor>a\<rfloor> + 1) \<le> of_int (2 ^ nat (bitlen \<lfloor>a\<rfloor>))"
    by (simp only: of_int_le_iff)
  moreover have "a < rat_of_int (\<lfloor>a\<rfloor> + 1)"
    by linarith
  ultimately have "a < 2 ^ nat (bitlen \<lfloor>a\<rfloor>)"
    by simp
  moreover have "0 \<le> bitlen \<lfloor>a\<rfloor>"
    by (rule bitlen_nonneg)
  ultimately show ?thesis
    using True by (simp add: ilog2_def power_int_def)
next
  case False
  with assms have y: "1 < 1 / a" by simp
  then have "1 < \<lceil>1 / a\<rceil>" by linarith
  then have n: "0 < \<lceil>1 / a\<rceil> - 1" by simp
  define K where "K = bitlen (\<lceil>1 / a\<rceil> - 1)"
  have K: "0 < K"
    unfolding K_def using n by (simp add: bitlen_alt_def)
  from bitlen_bounds [OF n] have "2 ^ nat (K - 1) \<le> \<lceil>1 / a\<rceil> - 1"
    unfolding K_def ..
  then have "rat_of_int (2 ^ nat (K - 1)) \<le> of_int (\<lceil>1 / a\<rceil> - 1)"
    by (simp only: of_int_le_iff)
  moreover have "rat_of_int (\<lceil>1 / a\<rceil> - 1) < 1 / a"
    by linarith
  ultimately have "2 ^ nat (K - 1) < 1 / a"
    by simp
  then have "a < 1 / 2 ^ nat (K - 1)"
    using assms by (simp add: field_simps)
  moreover have "ilog2 a + 1 = - (K - 1)"
    using False by (simp add: ilog2_def K_def)
  ultimately show ?thesis
    using K False by (auto simp: power_int_def inverse_eq_divide power_one_over)
qed







lemma unsignedLong_of_nat: "unsignedLong (of_nat n) = of_nat n"
  by (simp add: unsignedLong_def)

lemma unsignedLong_of_int: "unsignedLong (of_int k) = of_int k"
  by (simp add: unsignedLong_def)

lemma unsignedLong_Math_round: "unsignedLong (Math_round x) = Math_round x"
  by (simp add: Math_round_def unsignedLong_of_int)

section \<open>Properties of the proportional resizer\<close>

lemma resizeImage_resolves:
  assumes "decode env f = Some img" and "getContext env"
    and "toBlob env (unsignedLong (fst (finalSize img width height m)))
           (unsignedLong (snd (finalSize img width height m))) (file_type f)"
  shows "resizeImage env q f width height m =
           Inr \<lparr>blob_width = unsignedLong (fst (finalSize img width height m)),
                blob_height = unsignedLong (snd (finalSize img width height m)),
                blob_type = file_type f, blob_quality = q\<rparr>"
  using assms by (simp add: resizeImage_def split_beta Let_def)

text \<open>
  Claim C9. With both target dimensions absent the resizer is the identity on dimensions:
  whatever the aspect flag, the output canvas has the width and the height of the source
  image, and where the browser decodes the file and encodes the canvas the promise resolves
  with a blob of exactly that size.
\<close>

theorem resizeImage_absent_identity:
  "finalSize img None None m = (of_nat (img_width img), of_nat (img_height img)) \<and>
   (decode env f = Some img \<and> getContext env \<and>
    toBlob env (of_nat (img_width img)) (of_nat (img_height img)) (file_type f) \<longrightarrow>
      (\<exists>b. resizeImage env q f None None m = Inr b \<and>
           blob_width b = of_nat (img_width img) \<and> blob_height b = of_nat (img_height img)))"
  by (simp add: finalSize_def orElse_def truthy_def resizeImage_def unsignedLong_of_nat)

theorem resizeImage_absent_identity_witness:
  "resizeImage \<lparr>decode = (\<lambda>f. Some \<lparr>img_width = 640, img_height = 480, img_data = []\<rparr>),
       getContext = True, getTempContext = True, toBlob = (\<lambda>w h t. True),
       fetch = (\<lambda>u. None)\<rparr> (9/10) \<lparr>file_name = ''a.png'', file_type = ''image/png''\<rparr>
     None None True
   = Inr \<lparr>blob_width = 640, blob_height = 480, blob_type = ''image/png'', blob_quality = 9/10\<rparr>"
proof -
  let ?img = "\<lparr>img_width = 640, img_height = 480, img_data = []\<rparr>"
  let ?env = "\<lparr>decode = (\<lambda>f. Some ?img), getContext = True, getTempContext = True,
       toBlob = (\<lambda>w h t. True), fetch = (\<lambda>u. None)\<rparr>"
  let ?f = "\<lparr>file_name = ''a.png'', file_type = ''image/png''\<rparr>"
  from resizeImage_absent_identity [of ?img True ?env ?f "9/10"]
  obtain b where "resizeImage ?env (9/10) ?f None None True = Inr b"
    and "blob_width b = 640" and "blob_height b = 480"
    by auto
  then show ?thesis
    by (auto simp: resizeImage_def Let_def split: option.splits if_splits prod.splits)
qed








section \<open>Properties of the batch run of the resize page\<close>


lemma ident_settleItem [simp]: "ident (settleItem env s f img) = ident img"
  by (simp add: settleItem_def split: prod.splits sum.splits)


lemma resizeSingleImage_map:
  "resizeSingleImage env s f prev =
     map (\<lambda>img. if ident img = ident f then settleItem env s f (img\<lparr>status := resizing\<rparr>) else img) prev"
  by (auto simp: resizeSingleImage_def settleResize_def beginResize_def settleItem_def
      split: prod.splits sum.splits)

lemma settleItem_resizing [simp]:
  "settleItem env s f (img\<lparr>status := resizing\<rparr>) = settleItem env s f img"
  by (simp add: settleItem_def split: prod.splits sum.splits)

lemma foldl_resizeSingleImage:
  assumes "distinct (map ident ps)"
  shows "foldl (\<lambda>prev f. resizeSingleImage env s f prev) xs ps =
           map (\<lambda>img. case find (\<lambda>f. ident f = ident img) ps of
                         None \<Rightarrow> img | Some f \<Rightarrow> settleItem env s f img) xs"
  using assms
proof (induction ps arbitrary: xs)
  case Nil
  then show ?case by simp
next
  case (Cons p ps)
  have nf: "find (\<lambda>f. ident f = ident p) ps = None"
    using Cons.prems by (auto simp: find_None_iff intro: rev_image_eqI)
  have "foldl (\<lambda>prev f. resizeSingleImage env s f prev) xs (p # ps) =
          foldl (\<lambda>prev f. resizeSingleImage env s f prev) (resizeSingleImage env s p xs) ps"
    by simp
  also have "\<dots> = map (\<lambda>img. case find (\<lambda>f. ident f = ident img) ps of
                         None \<Rightarrow> img | Some f \<Rightarrow> settleItem env s f img)
                     (resizeSingleImage env s p xs)"
    using Cons.prems by (intro Cons.IH) simp
  also have "\<dots> = map (\<lambda>img. case find (\<lambda>f. ident f = ident img) (p # ps) of
                         None \<Rightarrow> img | Some f \<Rightarrow> settleItem env s f img) xs"
    by (auto simp: resizeSingleImage_map nf)
  finally show ?case .
qed

lemma find_pending:
  assumes "distinct (map ident xs)" and "img \<in> set xs"
  shows "find (\<lambda>f. ident f = ident img) (filter (\<lambda>i. status i = pending) xs) =
           (if status img = pending then Some img else None)"
  using assms
proof (induction xs)
  case Nil
  then show ?case by simp
next
  case (Cons x xs)
  show ?case
  proof (cases "img = x")
    case True
    then show ?thesis
      using Cons.prems by (auto simp: find_None_iff intro: rev_image_eqI)
  next
    case False
    then have "img \<in> set xs" and "ident x \<noteq> ident img"
      using Cons.prems by auto
    then show ?thesis
      using Cons by auto
  qed
qed

lemma handleResizeAll_map:
  assumes "distinct (map ident xs)"
  shows "handleResizeAll env s xs =
           map (\<lambda>img. if status img = pending then settleItem env s img img else img) xs"
proof -
  have d: "distinct (map ident (filter (\<lambda>i. status i = pending) xs))"
    using assms by (simp add: distinct_map_filter)
  show ?thesis
    unfolding handleResizeAll_def Let_def foldl_resizeSingleImage [OF d]
    by (rule map_cong) (simp_all add: find_pending [OF assms])
qed













section \<open>One requested dimension\<close>

lemma Math_round_close: "\<bar>Math_round x - x\<bar> \<le> 1 / 2"
  using of_int_round_abs_le [of x] by (simp add: Math_round_def)

lemma finalSize_width_only:
  assumes "w \<noteq> 0"
  shows "finalSize img (Some w) None True =
           (w, Math_round (fl (w / fl (of_nat (img_width img) / of_nat (img_height img)))))"
  using assms by (simp add: finalSize_def truthy_def orElse_def)

lemma finalSize_height_only:
  assumes "h \<noteq> 0"
  shows "finalSize img None (Some h) True =
           (Math_round (fl (h * fl (of_nat (img_width img) / of_nat (img_height img)))), h)"
  using assms by (simp add: finalSize_def truthy_def orElse_def)

text \<open>
  Claim C3. Called with exactly one dimension, \<^verbatim>\<open>resizeImage\<close> keeps the requested axis
  and rounds the other from the source aspect ratio (the three lemmas above). The batch path
  never makes that call: \<open>resizeArgs\<close> replaces the empty field by the item's original
  dimension, so both dimensions reach \<^verbatim>\<open>resizeImage\<close> and the contain branch runs. For
  a source of 100 by 50 pixels and a requested width of 200 with the height left empty, the
  arguments are 200 and 50 and the output is 100 by 50, where the direct call gives 200 by
  100.
\<close>

theorem resizeSingleImage_width_only_enlarging:
  "resizeArgs \<lparr>targetWidthInput = Some 200, targetHeightInput = None,
       maintainAspectRatio = True, quality = 9/10\<rparr> (pendingItem ''1'' ''a.png'' 100 50)
     = (Some 200, Some 50) \<and>
   map (\<lambda>img. (status img, resizedUrl img))
     (resizeSingleImage
        (browserOf (\<lambda>f. Some \<lparr>img_width = 100, img_height = 50, img_data = []\<rparr>))
        \<lparr>targetWidthInput = Some 200, targetHeightInput = None,
          maintainAspectRatio = True, quality = 9/10\<rparr>
        (pendingItem ''1'' ''a.png'' 100 50) [pendingItem ''1'' ''a.png'' 100 50])
     = [(completed, Some (ObjectURL \<lparr>blob_width = 100, blob_height = 50,
           blob_type = ''image/png'', blob_quality = 9/10\<rparr>))] \<and>
   finalSize \<lparr>img_width = 100, img_height = 50, img_data = []\<rparr> (Some 200) None True
     = (200, 100)"
  by code_simp

theorem resizeSingleImage_width_only_enlarging_witness:
  "resizeArgs \<lparr>targetWidthInput = Some 200, targetHeightInput = None,
       maintainAspectRatio = True, quality = 9/10\<rparr> (pendingItem ''1'' ''a.png'' 100 50)
     = (Some 200, Some 50)"
  using resizeSingleImage_width_only_enlarging by blast

section \<open>Status transitions under interleaved events\<close>

text \<open>
  A batch that no other event interrupts is \<^verbatim>\<open>handleResizeAll\<close> as defined above, and
  in it no status moves backward.
\<close>

lemma execute_batch_run:
  "execute env s \<lparr>imageFiles = beginResize f ys, runs = [\<lparr>current = f, remaining = rest\<rparr>]\<rparr>
     (replicate (Suc (length rest)) (Settle 0)) =
   \<lparr>imageFiles = foldl (\<lambda>prev g. resizeSingleImage env s g prev) ys (f # rest), runs = []\<rparr>"
proof (induction rest arbitrary: f ys)
  case Nil
  then show ?case
    by (simp add: execute_def resizeSingleImage_def)
next
  case (Cons g rest)
  have "execute env s \<lparr>imageFiles = beginResize f ys, runs = [\<lparr>current = f, remaining = g # rest\<rparr>]\<rparr>
          (replicate (Suc (length (g # rest))) (Settle 0)) =
        execute env s
          \<lparr>imageFiles = beginResize g (resizeSingleImage env s f ys),
            runs = [\<lparr>current = g, remaining = rest\<rparr>]\<rparr>
          (replicate (Suc (length rest)) (Settle 0))"
    by (simp add: execute_def resizeSingleImage_def)
  also have "\<dots> = \<lparr>imageFiles = foldl (\<lambda>prev g. resizeSingleImage env s g prev)
                        (resizeSingleImage env s f ys) (g # rest), runs = []\<rparr>"
    by (rule Cons.IH)
  finally show ?case
    by simp
qed

lemma execute_handleResizeAll:
  "execute env s \<lparr>imageFiles = xs, runs = []\<rparr>
     (ClickResizeAll # replicate (length (filter (\<lambda>img. status img = pending) xs)) (Settle 0)) =
   \<lparr>imageFiles = handleResizeAll env s xs, runs = []\<rparr>"
proof (cases "filter (\<lambda>img. status img = pending) xs")
  case Nil
  then show ?thesis
    by (simp add: execute_def handleResizeAll_def)
next
  case (Cons f rest)
  have "execute env s \<lparr>imageFiles = xs, runs = []\<rparr>
          (ClickResizeAll # replicate (Suc (length rest)) (Settle 0)) =
        execute env s \<lparr>imageFiles = beginResize f xs, runs = [\<lparr>current = f, remaining = rest\<rparr>]\<rparr>
          (replicate (Suc (length rest)) (Settle 0))"
    using Cons by (simp add: execute_def)
  also have "\<dots> = \<lparr>imageFiles = foldl (\<lambda>prev g. resizeSingleImage env s g prev) xs (f # rest),
                        runs = []\<rparr>"
    by (rule execute_batch_run)
  finally show ?thesis
    using Cons by (simp add: handleResizeAll_def)
qed

lemma statusRank_settleItem: "statusRank (status (settleItem env s f img)) = 2"
  by (simp add: settleItem_def split: prod.splits sum.splits)

lemma handleResizeAll_forward:
  assumes "distinct (map ident xs)" and "i < length xs"
  shows "statusRank (status (xs ! i)) \<le> statusRank (status (handleResizeAll env s xs ! i))"
  using assms(2) unfolding handleResizeAll_map [OF assms(1)]
  by (simp add: statusRank_settleItem)

text \<open>
  Claim C8. Two pending items; the batch button is pressed, and while the first item is
  being processed the button of the second item is pressed and its processing finishes:
  the second item is \<open>completed\<close>. When the first item settles, the batch goes on to the
  second item of its snapshot, and the update before the \<^verbatim>\<open>await\<close> writes
  \<open>resizing\<close> (on the compress page \<open>compressing\<close>) over \<open>completed\<close>: the status of the
  second item has moved backward, on either page.
\<close>

theorem status_moves_backward:
  "map status (imageFiles (execute
       (browserOf (\<lambda>f. Some \<lparr>img_width = 100, img_height = 50, img_data = []\<rparr>)) form5
       \<lparr>imageFiles = [pendingItem ''1'' ''a.png'' 100 50, pendingItem ''2'' ''b.png'' 100 50],
         runs = []\<rparr>
       [ClickResizeAll, ClickResize 1, Settle 1]))
     = [resizing, completed] \<and>
   map status (imageFiles (execute
       (browserOf (\<lambda>f. Some \<lparr>img_width = 100, img_height = 50, img_data = []\<rparr>)) form5
       \<lparr>imageFiles = [pendingItem ''1'' ''a.png'' 100 50, pendingItem ''2'' ''b.png'' 100 50],
         runs = []\<rparr>
       [ClickResizeAll, ClickResize 1, Settle 1, Settle 0]))
     = [completed, resizing] \<and>
   map compressStatus (compressFiles (compressExecute pngBrowser (\<lambda>b. 1024) (7/10)
       \<lparr>compressFiles = [pendingCompress ''1'' ''a.png'', pendingCompress ''2'' ''b.png''],
         compressRuns = [], isCompressing = False\<rparr>
       [ClickCompressAll, ClickCompress 1, SettleCompress 1]))
     = [compressing, completed] \<and>
   map compressStatus (compressFiles (compressExecute pngBrowser (\<lambda>b. 1024) (7/10)
       \<lparr>compressFiles = [pendingCompress ''1'' ''a.png'', pendingCompress ''2'' ''b.png''],
         compressRuns = [], isCompressing = False\<rparr>
       [ClickCompressAll, ClickCompress 1, SettleCompress 1, SettleCompress 0]))
     = [completed, compressing] \<and>
   statusRank compressing < statusRank completed \<and> statusRank resizing < statusRank completed"
  by code_simp

theorem status_moves_backward_witness:
  "map status (imageFiles (execute
       (browserOf (\<lambda>f. Some \<lparr>img_width = 100, img_height = 50, img_data = []\<rparr>)) form5
       \<lparr>imageFiles = [pendingItem ''1'' ''a.png'' 100 50, pendingItem ''2'' ''b.png'' 100 50],
         runs = []\<rparr>
       [ClickResizeAll, ClickResize 1, Settle 1, Settle 0]))
     = [completed, resizing]"
  using status_moves_backward by blast

section \<open>Properties of the center crop\<close>










section \<open>Properties of the collage loop\<close>


lemma row_major_cells:
  assumes "\<And>row col. col < C \<Longrightarrow> G row col = F (row * C + col)"
  shows "concat (map (\<lambda>row. concat (map (G row) [0..<C])) [0..<R]) = concat (map F [0..<R * C])"
proof (induction R)
  case 0
  then show ?case by simp
next
  case (Suc R)
  have "map (G R) [0..<C] = map (\<lambda>col. F (R * C + col)) [0..<C]"
    using assms by simp
  also have "\<dots> = map F (map (\<lambda>col. col + R * C) [0..<C])"
    by (simp add: add.commute)
  also have "\<dots> = map F [R * C..<C + R * C]"
    by (simp only: map_add_upt)
  finally have row: "map (G R) [0..<C] = map F [R * C..<C + R * C]" .
  have "[0..<R * C + C] = [0..<R * C] @ [R * C..<R * C + C]"
    by (rule upt_add_eq_append) simp
  then have "[0..<Suc R * C] = [0..<R * C] @ [R * C..<C + R * C]"
    by (simp add: add.commute)
  then show ?case
    using Suc row by simp
qed

lemma cells_up_to:
  "concat (map (\<lambda>j. if j < m then [f j] else []) [0..<k]) = map f [0..<min k m]"
proof (induction k)
  case 0
  then show ?case by simp
next
  case (Suc k)
  show ?case
  proof (cases "k < m")
    case True
    then have "min (Suc k) m = Suc (min k m)" by simp
    with Suc True show ?thesis by simp
  next
    case False
    then have "min (Suc k) m = min k m" by simp
    with Suc False show ?thesis by simp
  qed
qed

lemma concat_singletons: "concat (map (\<lambda>x. [f x]) xs) = map f xs"
  by (induction xs) simp_all

lemma drawCollage_cells:
  assumes "0 < cols" and "\<forall>img\<in>set vs. image img \<noteq> None"
  shows "concat (map (\<lambda>row. concat (map (\<lambda>col. drawCell env vs cols start row col) [0..<cols]))
                     [0..<rws]) =
         map (\<lambda>j. \<lparr>placedAtX = fl (of_nat (j mod cols) * cellWidth),
                    placedAtY = fl (of_nat (j div cols) * cellHeight),
                    placed = cropAndResizeImage (getContext env) (the (image (vs ! (start + j))))
                               cellWidth cellHeight\<rparr>)
             [0..<min (rws * cols) (length vs - start)]"
proof -
  let ?P = "\<lambda>j. \<lparr>placedAtX = fl (of_nat (j mod cols) * cellWidth),
                    placedAtY = fl (of_nat (j div cols) * cellHeight),
                    placed = cropAndResizeImage (getContext env) (the (image (vs ! (start + j))))
                               cellWidth cellHeight\<rparr>"
  let ?F = "\<lambda>j. if j < length vs - start then [?P j] else []"
  have cell: "drawCell env vs cols start row col = ?F (row * cols + col)" if "col < cols" for row col
  proof (cases "start + (row * cols + col) < length vs")
    case True
    then have "vs ! (start + (row * cols + col)) \<in> set vs"
      by simp
    with assms(2) obtain i where "image (vs ! (start + (row * cols + col))) = Some i"
      by auto
    with True that show ?thesis
      by (simp add: drawCell_def Let_def less_diff_conv add.commute)
  next
    case False
    then show ?thesis
      by (simp add: drawCell_def Let_def less_diff_conv add.commute)
  qed
  have "concat (map (\<lambda>row. concat (map (\<lambda>col. drawCell env vs cols start row col) [0..<cols]))
                     [0..<rws]) = concat (map ?F [0..<rws * cols])"
    by (rule row_major_cells) (rule cell)
  also have "\<dots> = map ?P [0..<min (rws * cols) (length vs - start)]"
    by (rule cells_up_to)
  finally show ?thesis .
qed


text \<open>
  Claim C5. On a grid of at least one column and one row, in a browser that hands out
  contexts and encodes the collage canvas (whose size is the grid of cells with the
  fraction dropped), \<^verbatim>\<open>generateCollage\<close> returns; with no decoded
  image it generates nothing and leaves the page as it is. Otherwise, for the \<open>n\<close> decoded
  images in list order and \<open>columns * rows\<close> cells, it generates exactly
  \<open>\<lceil>n / (columns * rows)\<rceil>\<close> collages; the collage at position \<open>g\<close> (from 0) has the number
  \<open>g + 1\<close> and holds the images \<open>g * columns * rows + j\<close> for \<open>j\<close> below the cell count and
  below the number of images left, the \<open>j\<close>-th of them cropped to the cell size by
  \<^verbatim>\<open>cropAndResizeImage\<close> and drawn in column \<open>j mod columns\<close> of row \<open>j div columns\<close>;
  nothing is drawn in the cells after them, which keep the background. Ten images on a grid
  of three by three give two collages, of nine images and of one image.
\<close>

theorem generateCollage_groups:
  assumes "0 < columns st" and "0 < rows st" and "getContext env"
    and "toBlob env (unsignedLong (fl (cellWidth * of_nat (columns st))))
           (unsignedLong (fl (cellHeight * of_nat (rows st)))) ''image/png''"
    and "vs = filter (\<lambda>img. image img \<noteq> None) (collageImageFiles st)"
  shows "generateCollage env st =
           Some (if vs = [] then st
                 else st\<lparr>collages :=
                   map (\<lambda>g. \<lparr>collageIndex = g + 1,
                              collageWidth = unsignedLong (fl (cellWidth * of_nat (columns st))),
                              collageHeight = unsignedLong (fl (cellHeight * of_nat (rows st))),
                              placements =
                                map (\<lambda>j. \<lparr>placedAtX = fl (of_nat (j mod columns st) * cellWidth),
                                           placedAtY = fl (of_nat (j div columns st) * cellHeight),
                                           placed = cropAndResizeImage True
                                             (the (image (vs ! (g * (columns st * rows st) + j))))
                                             cellWidth cellHeight\<rparr>)
                                    [0..<min (columns st * rows st)
                                           (length vs - g * (columns st * rows st))]\<rparr>)
                       [0..<nat \<lceil>(of_nat (length vs) :: rat) / of_nat (columns st * rows st)\<rceil>]\<rparr>)"
proof (cases "vs = []")
  case True
  then show ?thesis
    using assms(5) by (simp add: generateCollage_def Let_def)
next
  case False
  have valid: "\<forall>img\<in>set vs. image img \<noteq> None"
    using assms(5) by simp
  have ne: "collageImageFiles st \<noteq> []"
    using False assms(5) by auto
  have slots: "columns st * rows st \<noteq> 0"
    using assms by simp
  define c where "c = (\<lambda>g. \<lparr>collageIndex = g + 1,
        collageWidth = unsignedLong (fl (cellWidth * of_nat (columns st))),
        collageHeight = unsignedLong (fl (cellHeight * of_nat (rows st))),
        placements =
          map (\<lambda>j. \<lparr>placedAtX = fl (of_nat (j mod columns st) * cellWidth),
                     placedAtY = fl (of_nat (j div columns st) * cellHeight),
                     placed = cropAndResizeImage True
                       (the (image (vs ! (g * (columns st * rows st) + j))))
                       cellWidth cellHeight\<rparr>)
              [0..<min (columns st * rows st) (length vs - g * (columns st * rows st))]\<rparr>)"
  have one: "drawCollage env vs (columns st) (rows st) g = [c g]" for g
    using assms(3,4) drawCollage_cells [OF assms(1) valid, of env "g * (columns st * rows st)" "rows st"]
    by (simp add: drawCollage_def Let_def mult.commute c_def)
  then have "drawCollage env vs (columns st) (rows st) = (\<lambda>g. [c g])"
    by (rule ext)
  then have all: "concat (map (drawCollage env vs (columns st) (rows st)) xs) = map c xs" for xs
    by (simp only: concat_singletons)
  have "generateCollage env st =
          Some (st\<lparr>collages := concat (map (drawCollage env vs (columns st) (rows st))
            [0..<nat \<lceil>(of_nat (length vs) :: rat) / of_nat (columns st * rows st)\<rceil>])\<rparr>)"
    using False ne slots assms(5) by (simp add: generateCollage_def Let_def)
  then have "generateCollage env st =
          Some (st\<lparr>collages := map c
            [0..<nat \<lceil>(of_nat (length vs) :: rat) / of_nat (columns st * rows st)\<rceil>]\<rparr>)"
    by (simp only: all)
  then show ?thesis
    using False unfolding c_def by simp
qed


theorem generateCollage_groups_witness:
  "map_option (\<lambda>s. map (\<lambda>c. (collageIndex c, length (placements c))) (collages s))
     (generateCollage (browserOf (\<lambda>f. None))
        \<lparr>collageImageFiles = tenImages, columns = 3, rows = 3, collages = []\<rparr>)
   = Some [(1, 9), (2, 1)]"
proof -
  let ?st = "\<lparr>collageImageFiles = tenImages, columns = 3, rows = 3, collages = []\<rparr>"
  let ?env = "browserOf (\<lambda>f. None)"
  have vs: "tenImages = filter (\<lambda>img. image img \<noteq> None) (collageImageFiles ?st)"
    by (simp add: tenImages_def filter_map o_def)
  have len: "length tenImages = 10"
    by (simp add: tenImages_def)
  then have ne: "tenImages \<noteq> []"
    by auto
  have k: "nat \<lceil>(10::rat) / 9\<rceil> = 2"
    by code_simp
  have two: "[0..<2] = [0, Suc 0]"
    by (simp add: upt_rec)
  have "generateCollage ?env ?st = Some (?st\<lparr>collages :=
          map (\<lambda>g. \<lparr>collageIndex = g + 1,
                     collageWidth = unsignedLong (fl (cellWidth * of_nat (columns ?st))),
                     collageHeight = unsignedLong (fl (cellHeight * of_nat (rows ?st))),
                     placements =
                       map (\<lambda>j. \<lparr>placedAtX = fl (of_nat (j mod columns ?st) * cellWidth),
                                  placedAtY = fl (of_nat (j div columns ?st) * cellHeight),
                                  placed = cropAndResizeImage True
                                    (the (image (tenImages ! (g * (columns ?st * rows ?st) + j))))
                                    cellWidth cellHeight\<rparr>)
                           [0..<min (columns ?st * rows ?st)
                                  (length tenImages - g * (columns ?st * rows ?st))]\<rparr>)
              [0..<nat \<lceil>(of_nat (length tenImages) :: rat) / of_nat (columns ?st * rows ?st)\<rceil>]\<rparr>)"
    using generateCollage_groups [of ?st ?env tenImages, OF _ _ _ _ vs] ne
    by (simp add: browserOf_def)
  then show ?thesis
    by (simp add: len k two)
qed


section \<open>Properties of the quality re-encoder\<close>


lemma length_imageDataOf: "length (imageDataOf ps) = 4 * length ps"
  by (induction ps) (simp_all add: imageDataOf_def)

lemma imageDataOf_Cons:
  "imageDataOf (p # ps) = [red p, green p, blue p, alpha p] @ imageDataOf ps"
  by (simp add: imageDataOf_def)

lemma nth_alpha:
  "k < length ps \<Longrightarrow> imageDataOf ps ! (4 * k + 3) = alpha (ps ! k)"
proof (induction ps arbitrary: k)
  case Nil
  then show ?case by simp
next
  case (Cons p ps)
  show ?case
  proof (cases k)
    case 0
    then show ?thesis
      by (simp add: imageDataOf_Cons)
  next
    case (Suc j)
    then have "j < length ps"
      using Cons.prems by simp
    then have "imageDataOf ps ! (4 * j + 3) = alpha (ps ! j)"
      by (rule Cons.IH)
    moreover have "4 * k + 3 = 4 + (4 * j + 3)"
      using Suc by simp
    ultimately show ?thesis
      using Suc by (simp add: imageDataOf_Cons nth_append add.commute)
  qed
qed

lemma hasTransparency_iff:
  "hasTransparency d \<longleftrightarrow> (\<exists>i<length d. i mod 4 = 3 \<and> d ! i < 255)"
  by (auto simp: hasTransparency_def list_ex_iff)

lemma hasTransparency_pixels:
  "hasTransparency (imageDataOf ps) \<longleftrightarrow> (\<exists>p\<in>set ps. alpha p < 255)"
proof
  assume "hasTransparency (imageDataOf ps)"
  then obtain i where i: "i < 4 * length ps" "i mod 4 = 3" "imageDataOf ps ! i < 255"
    by (auto simp: hasTransparency_iff length_imageDataOf)
  then have k: "i div 4 < length ps" and "i = 4 * (i div 4) + 3"
    by (simp_all add: less_mult_imp_div_less mult.commute) presburger
  with i nth_alpha [of "i div 4" ps] have "alpha (ps ! (i div 4)) < 255"
    by simp
  with k show "\<exists>p\<in>set ps. alpha p < 255"
    by (meson nth_mem)
next
  assume "\<exists>p\<in>set ps. alpha p < 255"
  then obtain k where k: "k < length ps" "alpha (ps ! k) < 255"
    by (auto simp: in_set_conv_nth)
  then have "4 * k + 3 < length (imageDataOf ps)" "(4 * k + 3) mod 4 = 3"
    "imageDataOf ps ! (4 * k + 3) < 255"
    by (simp_all add: length_imageDataOf nth_alpha)
  then show "hasTransparency (imageDataOf ps)"
    unfolding hasTransparency_iff by blast
qed

lemma outputEncoding_cases:
  assumes "getTempContext env" and "img_data img = imageDataOf ps"
  shows "outputEncoding env t q img =
           (if toLowerCase t = ''image/png'' then
              (if \<exists>p\<in>set ps. alpha p < 255 then (''image/png'', max (1 / 10) (9 / 10 * q))
               else (''image/jpeg'', q))
            else if toLowerCase t = ''image/webp'' then (''image/webp'', q)
            else (''image/jpeg'', q))"
  using assms by (simp add: outputEncoding_def Let_def hasTransparency_pixels mult.commute)

text \<open>
  Claim C4, as the code has it. Where the file decodes and the browser hands out both
  contexts and encodes the canvas, the output encoding follows the declared type of the
  source, read in lower case: a PNG source with some pixel of alpha below 255 stays PNG, at
  the quality \<open>max (1/10) (9/10 * quality)\<close>, which is \<open>9/10 * quality\<close> whenever the
  quality is at least \<open>1/9\<close>; a PNG source whose pixels are all opaque is encoded as JPEG
  at the given quality; a WEBP source as WEBP at the given quality; every other source,
  JPEG included, as JPEG at the given quality. At quality 8/10, a PNG with a pixel of alpha
  100 gives a PNG at quality 72/100.
\<close>

theorem compressImage_encoding:
  assumes "decode env f = Some img" and "getContext env" and "getTempContext env"
    and "img_data img = imageDataOf ps"
    and "\<forall>t. toBlob env (of_nat (img_width img)) (of_nat (img_height img)) t"
  shows "compressImage env f q =
           Inr \<lparr>blob_width = of_nat (img_width img), blob_height = of_nat (img_height img),
                blob_type =
                  (if toLowerCase (file_type f) = ''image/png'' then
                     (if \<exists>p\<in>set ps. alpha p < 255 then ''image/png'' else ''image/jpeg'')
                   else if toLowerCase (file_type f) = ''image/webp'' then ''image/webp''
                   else ''image/jpeg''),
                blob_quality =
                  (if toLowerCase (file_type f) = ''image/png'' \<and> (\<exists>p\<in>set ps. alpha p < 255)
                   then max (1 / 10) (9 / 10 * q) else q)\<rparr> \<and>
         (1 / 9 \<le> q \<longrightarrow> max (1 / 10) (9 / 10 * q) = 9 / 10 * q)"
proof -
  have "compressImage env f q =
          (let (outputMimeType, outputQuality) = outputEncoding env (file_type f) q img
           in Inr \<lparr>blob_width = of_nat (img_width img), blob_height = of_nat (img_height img),
                   blob_type = outputMimeType, blob_quality = outputQuality\<rparr>)"
    using assms(1,2,5) by (simp add: compressImage_def split_beta)
  then show ?thesis
    by (simp add: outputEncoding_cases [OF assms(3,4)])
qed

theorem compressImage_encoding_witness:
  "compressImage pngBrowser pngFile (8 / 10) =
     Inr \<lparr>blob_width = 2, blob_height = 1, blob_type = ''image/png'', blob_quality = 72 / 100\<rparr>"
proof -
  let ?ps = "[\<lparr>red = 10, green = 20, blue = 30, alpha = 255\<rparr>,
              \<lparr>red = 10, green = 20, blue = 30, alpha = 100 :: 8 word\<rparr>]"
  have d: "decode pngBrowser pngFile = Some translucentPng"
    and c: "getContext pngBrowser" "getTempContext pngBrowser"
    and b: "\<forall>t. toBlob pngBrowser (of_nat (img_width translucentPng))
                  (of_nat (img_height translucentPng)) t"
    by (simp_all add: pngBrowser_def browserOf_def)
  have i: "img_data translucentPng = imageDataOf ?ps"
    by (simp add: translucentPng_def)
  have low: "toLowerCase (file_type pngFile) = ''image/png''"
    by code_simp
  from compressImage_encoding [OF d c i b, of "8 / 10"] show ?thesis
    by (simp add: low translucentPng_def)
qed

text \<open>
  Claim C4 as stated fails at low quality: at quality 1/10, the lowest value of the page's
  slider, the PNG with a pixel of alpha 100 is encoded at quality 1/10, not at 9/100.
\<close>

theorem compressImage_low_quality_not_damped:
  "compressImage pngBrowser pngFile (1 / 10) =
     Inr \<lparr>blob_width = 2, blob_height = 1, blob_type = ''image/png'', blob_quality = 1 / 10\<rparr> \<and>
   (1 / 10 :: rat) \<noteq> 9 / 10 * (1 / 10)"
  by code_simp

text \<open>
  Claim C10. For a PNG source with some pixel of alpha below 255 and every quality \<open>q\<close>
  (in particular every \<open>q\<close> between 0 and 1), the blob is encoded at the quality
  \<open>max (1/10) (9/10 * q)\<close>: never below 1/10, and exactly 1/10 where \<open>9/10 * q\<close> is
  below it.
\<close>

theorem transparent_png_quality_floor:
  assumes "decode env f = Some img" and "getContext env" and "getTempContext env"
    and "toBlob env (of_nat (img_width img)) (of_nat (img_height img)) ''image/png''"
    and "toLowerCase (file_type f) = ''image/png''"
    and "img_data img = imageDataOf ps" and "\<exists>p\<in>set ps. alpha p < 255"
  shows "\<exists>b. compressImage env f q = Inr b \<and> blob_type b = ''image/png'' \<and>
              blob_quality b = max (1 / 10) (9 / 10 * q) \<and> 1 / 10 \<le> blob_quality b \<and>
              (9 / 10 * q < 1 / 10 \<longrightarrow> blob_quality b = 1 / 10)"
proof -
  have "outputEncoding env (file_type f) q img = (''image/png'', max (1 / 10) (9 / 10 * q))"
    using assms(5,7) by (simp add: outputEncoding_cases [OF assms(3,6)])
  then show ?thesis
    using assms(1,2,4) by (simp add: compressImage_def)
qed

theorem transparent_png_quality_floor_witness:
  "compressImage pngBrowser pngFile (1 / 20) =
     Inr \<lparr>blob_width = 2, blob_height = 1, blob_type = ''image/png'', blob_quality = 1 / 10\<rparr>"
proof -
  let ?ps = "[\<lparr>red = 10, green = 20, blue = 30, alpha = 255\<rparr>,
              \<lparr>red = 10, green = 20, blue = 30, alpha = 100 :: 8 word\<rparr>]"
  have d: "decode pngBrowser pngFile = Some translucentPng"
    and c: "getContext pngBrowser" "getTempContext pngBrowser"
    and b: "toBlob pngBrowser (of_nat (img_width translucentPng))
                  (of_nat (img_height translucentPng)) ''image/png''"
    by (simp_all add: pngBrowser_def browserOf_def)
  have i: "img_data translucentPng = imageDataOf ?ps"
    by (simp add: translucentPng_def)
  have low: "toLowerCase (file_type pngFile) = ''image/png''"
    by code_simp
  have t: "\<exists>p\<in>set ?ps. alpha p < 255"
    by simp
  from transparent_png_quality_floor [OF d c b low i t, of "1 / 20"]
  obtain bl where "compressImage pngBrowser pngFile (1 / 20) = Inr bl"
    and "blob_type bl = ''image/png''" and "blob_quality bl = 1 / 10"
    by auto
  then show ?thesis
    using d c b by (auto simp: compressImage_def translucentPng_def split: if_splits prod.splits)
qed

section \<open>Properties of the conversion endpoint\<close>












end
